theory Spec2Isabelle
  imports Main "HOL-Library.AList" "HOL-Library.Multiset" "HOL-Library.Sublist"
begin

section \<open>Python strings and \<^verbatim>\<open>str.title\<close>\<close>

text \<open>
  The program reads its inputs from text fields and handles them as Python \<^verbatim>\<open>str\<close>: a
  sequence of Unicode code points. A string of the model is the list of its code
  points; \<^term>\<open>str ''abc''\<close> is the string of an ASCII literal.
\<close>

type_synonym codepoint = nat

type_synonym pystr = "codepoint list"

definition cp :: "char \<Rightarrow> codepoint" where
  "cp c = of_char c"

definition str :: "string \<Rightarrow> pystr" where
  "str s = map cp s"

text \<open>
  \<^verbatim>\<open>str.title\<close> reads the interpreter's Unicode character database: which code
  points are cased, which are case-ignorable, and the full title-case and lower-case
  mapping of each (a mapping may yield up to three code points). The database is not
  part of the repository. Its entries for the ASCII code points are written out below;
  its entries for the code points beyond ASCII are a parameter of the model, and every
  statement about \<^verbatim>\<open>str.title\<close> holds for every such table.
\<close>

record ucd =
  cased_beyond :: "codepoint \<Rightarrow> bool"
  case_ignorable_beyond :: "codepoint \<Rightarrow> bool"
  title_beyond :: "codepoint \<Rightarrow> pystr"
  lower_beyond :: "codepoint \<Rightarrow> pystr"

definition ascii_upper :: "codepoint \<Rightarrow> bool" where
  "ascii_upper c = (65 \<le> c \<and> c \<le> 90)"

definition ascii_lower :: "codepoint \<Rightarrow> bool" where
  "ascii_lower c = (97 \<le> c \<and> c \<le> 122)"

definition ascii_to_upper :: "codepoint \<Rightarrow> codepoint" where
  "ascii_to_upper c = (if ascii_lower c then c - 32 else c)"

definition ascii_to_lower :: "codepoint \<Rightarrow> codepoint" where
  "ascii_to_lower c = (if ascii_upper c then c + 32 else c)"

text \<open>In ASCII the cased code points are the letters, and the case-ignorable ones are
  the apostrophe, the full stop, the colon, the circumflex and the grave accent.\<close>

definition cased :: "ucd \<Rightarrow> codepoint \<Rightarrow> bool" where
  "cased u c = (if c < 128 then ascii_upper c \<or> ascii_lower c else cased_beyond u c)"

definition case_ignorable :: "ucd \<Rightarrow> codepoint \<Rightarrow> bool" where
  "case_ignorable u c =
     (if c < 128 then c \<in> {39, 46, 58, 94, 96} else case_ignorable_beyond u c)"

definition title_full :: "ucd \<Rightarrow> codepoint \<Rightarrow> pystr" where
  "title_full u c = (if c < 128 then [ascii_to_upper c] else title_beyond u c)"

definition lower_full :: "ucd \<Rightarrow> codepoint \<Rightarrow> pystr" where
  "lower_full u c = (if c < 128 then [ascii_to_lower c] else lower_beyond u c)"

text \<open>
  Lower-casing looks at the context in one case: a capital sigma \<^verbatim>\<open>U+03A3\<close> becomes
  the final sigma \<^verbatim>\<open>U+03C2\<close> when, case-ignorable code points skipped, a cased code
  point stands before it and none stands after it, and the small sigma \<^verbatim>\<open>U+03C3\<close>
  otherwise. \<open>before\<close> holds the code points before the sigma, the nearest first;
  \<open>after\<close> those after it.
\<close>

definition handle_capital_sigma :: "ucd \<Rightarrow> pystr \<Rightarrow> pystr \<Rightarrow> codepoint" where
  "handle_capital_sigma u before after =
     (case dropWhile (case_ignorable u) before of
        [] \<Rightarrow> 963
      | b # _ \<Rightarrow>
          if cased u b then
            (case dropWhile (case_ignorable u) after of
               [] \<Rightarrow> 962
             | a # _ \<Rightarrow> if cased u a then 963 else 962)
          else 963)"

definition lower_ucs4 :: "ucd \<Rightarrow> pystr \<Rightarrow> codepoint \<Rightarrow> pystr \<Rightarrow> pystr" where
  "lower_ucs4 u before c after =
     (if c = 931 then [handle_capital_sigma u before after] else lower_full u c)"

text \<open>
  \<^verbatim>\<open>str.title()\<close>, as CPython computes it: one pass over the code points with the flag
  \<^verbatim>\<open>previous_is_cased\<close>, false at the start. A code point that follows a cased one is
  lower-cased, any other is title-cased; the flag becomes whether the code point just
  read is cased.
\<close>

fun title_loop :: "ucd \<Rightarrow> bool \<Rightarrow> pystr \<Rightarrow> pystr \<Rightarrow> pystr" where
  "title_loop u previous_is_cased before [] = []"
| "title_loop u previous_is_cased before (c # after) =
     (if previous_is_cased then lower_ucs4 u before c after else title_full u c)
     @ title_loop u (cased u c) (c # before) after"

definition title :: "ucd \<Rightarrow> pystr \<Rightarrow> pystr" where
  "title u s = title_loop u False [] s"

text \<open>
  An excerpt of the database, for the examples: \<^verbatim>\<open>U+00C9\<close> and \<^verbatim>\<open>U+00E9\<close> (E with
  acute), \<^verbatim>\<open>U+00DF\<close> (sharp s, whose title case is \<^verbatim>\<open>Ss\<close>), the three sigmas, and
  the case-ignorable soft hyphen \<^verbatim>\<open>U+00AD\<close>. It leaves every other code point beyond
  ASCII uncased and unchanged.
\<close>

definition sample_ucd :: ucd where
  "sample_ucd =
     \<lparr> cased_beyond = (\<lambda>c. c \<in> {201, 223, 233, 931, 962, 963}),
       case_ignorable_beyond = (\<lambda>c. c = 173),
       title_beyond = (\<lambda>c. if c = 223 then [83, 115] else if c = 233 then [201]
                            else if c = 962 \<or> c = 963 then [931] else [c]),
       lower_beyond = (\<lambda>c. if c = 201 then [233] else if c = 931 then [963] else [c]) \<rparr>"

text \<open>Python's \<^verbatim>\<open>str.isspace\<close>: the ASCII whitespace (tab, line feed, vertical tab,
  form feed, carriage return, the four separators \<^verbatim>\<open>0x1c-0x1f\<close> and the space), and
  the whitespace beyond ASCII.\<close>

definition is_whitespace :: "codepoint \<Rightarrow> bool" where
  "is_whitespace c = ((9 \<le> c \<and> c \<le> 13) \<or> (28 \<le> c \<and> c \<le> 32))"

definition is_space :: "codepoint \<Rightarrow> bool" where
  "is_space c =
     (is_whitespace c \<or> c = 133 \<or> c = 160 \<or> c = 5760 \<or> (8192 \<le> c \<and> c \<le> 8202) \<or>
      c = 8232 \<or> c = 8233 \<or> c = 8239 \<or> c = 8287 \<or> c = 12288)"

text \<open>
  The specification's wording of the normalisation, for comparison with \<^const>\<open>title\<close>:
  words are separated by whitespace, the first letter of each word is capitalised and
  the rest of the word is lower-cased.
\<close>

fun spec_title_loop :: "ucd \<Rightarrow> bool \<Rightarrow> pystr \<Rightarrow> pystr \<Rightarrow> pystr" where
  "spec_title_loop u at_word_start before [] = []"
| "spec_title_loop u at_word_start before (c # after) =
     (if is_space c then c # spec_title_loop u True (c # before) after
      else (if at_word_start then title_full u c else lower_ucs4 u before c after)
           @ spec_title_loop u False (c # before) after)"

definition spec_title :: "ucd \<Rightarrow> pystr \<Rightarrow> pystr" where
  "spec_title u s = spec_title_loop u True [] s"

section \<open>Python values, exceptions and the persistence file\<close>

datatype py_error =
  FileNotFoundError | JSONDecodeError | UnicodeDecodeError | RecursionError
  | AttributeError | TypeError | KeyError | IndexError | ValueError

text \<open>A computation that raises stops at the first exception.\<close>

fun err_bind :: "py_error + 'a \<Rightarrow> ('a \<Rightarrow> py_error + 'b) \<Rightarrow> py_error + 'b" where
  "err_bind (Inl e) f = Inl e"
| "err_bind (Inr x) f = f x"

text \<open>
  What \<^verbatim>\<open>json.load\<close> returns: \<^verbatim>\<open>None\<close>, a bool, an int, a float, a str, a list or
  a dict with string keys. A dict is an association list in insertion order; the keys
  of a Python dict are distinct, and a statement that depends on it assumes
  \<open>distinct (map fst d)\<close>. A float is kept as the text of its literal: the program
  never computes with one.
\<close>

datatype json =
  JNull | JBool bool | JInt int | JFloat string | JStr pystr
  | JArr "json list" | JObj "(pystr \<times> json) list"

text \<open>
  The file \<^verbatim>\<open>details_data.json\<close> is the only state the program keeps. \<^verbatim>\<open>None\<close> is the
  absent file. A file that is there is told by what reading it does:
  \<^item> \<open>NotUtf8\<close>: its bytes are not UTF-8, and reading raises \<^verbatim>\<open>UnicodeDecodeError\<close>;
  \<^item> \<open>Malformed\<close>: its text is not JSON, and \<^verbatim>\<open>json.load\<close> raises \<^verbatim>\<open>JSONDecodeError\<close>;
  \<^item> \<open>HugeInteger\<close>: its text is JSON with an integer of more digits than the
    interpreter converts (4300 by default), and \<^verbatim>\<open>json.load\<close> raises \<^verbatim>\<open>ValueError\<close>;
  \<^item> \<open>TooDeep\<close>: its text is JSON nested deeper than the interpreter's recursion
    limit, and \<^verbatim>\<open>json.load\<close> raises \<^verbatim>\<open>RecursionError\<close>;
  \<^item> \<open>Document data\<close>: \<^verbatim>\<open>json.load\<close> returns \<open>data\<close>. A document is identified
    with that value, and \<^verbatim>\<open>json.dump\<close> writes the document of the value it is given.
  \<^verbatim>\<open>UnicodeDecodeError\<close> and \<^verbatim>\<open>JSONDecodeError\<close> are subclasses of \<^verbatim>\<open>ValueError\<close>, not
  of each other: a handler for \<^verbatim>\<open>JSONDecodeError\<close> catches none of the other three.
  Failures of the operating system on a file that is there (permissions, a full disk)
  are not modelled.
\<close>

datatype file_content = NotUtf8 | Malformed | HugeInteger | TooDeep | Document json

type_synonym file_system = "file_content option"

text \<open>\<^verbatim>\<open>with open("details_data.json", mode="r") as data_file: json.load(data_file)\<close>\<close>

definition load :: "file_system \<Rightarrow> py_error + json" where
  "load fs =
     (case fs of
        None \<Rightarrow> Inl FileNotFoundError
      | Some NotUtf8 \<Rightarrow> Inl UnicodeDecodeError
      | Some Malformed \<Rightarrow> Inl JSONDecodeError
      | Some HugeInteger \<Rightarrow> Inl ValueError
      | Some TooDeep \<Rightarrow> Inl RecursionError
      | Some (Document data) \<Rightarrow> Inr data)"

text \<open>\<^verbatim>\<open>with open("details_data.json", mode="w") as data_file: json.dump(data, data_file)\<close>\<close>

definition dump :: "json \<Rightarrow> file_system" where
  "dump data = Some (Document data)"

text \<open>\<^verbatim>\<open>d[k] = v\<close> on a dict keeps the position of a key that is present and appends a
  new one, as \<^const>\<open>AList.update\<close> does; \<^verbatim>\<open>d.update(other)\<close> assigns the items of
  \<^verbatim>\<open>other\<close> in order. Only a dict has the method \<^verbatim>\<open>update\<close>.\<close>

definition dict_update :: "(pystr \<times> json) list \<Rightarrow> (pystr \<times> json) list \<Rightarrow> (pystr \<times> json) list" where
  "dict_update d other = fold (\<lambda>(k, v). AList.update k v) other d"

definition py_update :: "json \<Rightarrow> (pystr \<times> json) list \<Rightarrow> py_error + json" where
  "py_update data other =
     (case data of
        JObj d \<Rightarrow> Inr (JObj (dict_update d other))
      | _ \<Rightarrow> Inl AttributeError)"

text \<open>\<^verbatim>\<open>website in data\<close>: key membership for a dict, element membership for a list,
  the substring test for a str, and a \<^verbatim>\<open>TypeError\<close> for every other value.\<close>

definition py_contains :: "pystr \<Rightarrow> json \<Rightarrow> py_error + bool" where
  "py_contains k data =
     (case data of
        JObj d \<Rightarrow> Inr (k \<in> set (map fst d))
      | JArr xs \<Rightarrow> Inr (JStr k \<in> set xs)
      | JStr s \<Rightarrow> Inr (sublist k s)
      | _ \<Rightarrow> Inl TypeError)"

text \<open>\<^verbatim>\<open>data[k]\<close> with a string \<^verbatim>\<open>k\<close>: the lookup for a dict (\<^verbatim>\<open>KeyError\<close> when the key is
  absent), and a \<^verbatim>\<open>TypeError\<close> for every other value.\<close>

definition py_getitem :: "json \<Rightarrow> pystr \<Rightarrow> py_error + json" where
  "py_getitem data k =
     (case data of
        JObj d \<Rightarrow> (case map_of d k of None \<Rightarrow> Inl KeyError | Some v \<Rightarrow> Inr v)
      | _ \<Rightarrow> Inl TypeError)"

section \<open>The credential store: \<^verbatim>\<open>save\<close> and \<^verbatim>\<open>find_password\<close>\<close>

text \<open>
  What a call shows to the user. \<open>EmptyField\<close> is the message box titled
  \<^verbatim>\<open>Oops\<close>, \<open>InvalidEmail\<close> the one titled \<^verbatim>\<open>Invalid Email\<close>; \<open>Saved\<close> is the
  branch that writes the file and clears the three fields. \<open>StoreMissing\<close> is the box
  \<^verbatim>\<open>No Data File Found\<close>, \<open>EntryNotFound w\<close> the box \<^verbatim>\<open>No details found for w\<close>, and
  \<open>Found w email password\<close> the box titled \<^verbatim>\<open>w\<close> whose message is formatted from the
  two values read from the store. An exception that leaves the function is \<open>Inl\<close>.
  The first argument of both functions is the character database that \<^verbatim>\<open>title()\<close>
  reads.
\<close>

datatype save_outcome = EmptyField | InvalidEmail | Saved

datatype find_outcome = StoreMissing | EntryNotFound pystr | Found pystr json json

definition credential :: "pystr \<Rightarrow> pystr \<Rightarrow> json" where
  "credential email password =
     JObj [(str ''email'', JStr email), (str ''password'', JStr password)]"

definition save :: "ucd \<Rightarrow> pystr \<Rightarrow> pystr \<Rightarrow> pystr \<Rightarrow> file_system \<Rightarrow> (py_error + save_outcome) \<times> file_system" where
  "save u website email password fs =
     (let new_data = [(title u website, credential email password)] in
      if length website = 0 \<or> length password = 0 \<or> length email = 0 then
        (Inr EmptyField, fs)
      else if cp CHR ''@'' \<notin> set email \<or> cp CHR ''.'' \<notin> set email then
        (Inr InvalidEmail, fs)
      else
        (case (case load fs of
                 Inl e \<Rightarrow> if e = FileNotFoundError \<or> e = JSONDecodeError
                          then Inr (JObj []) else Inl e
               | Inr data \<Rightarrow> Inr data) of
           Inl e \<Rightarrow> (Inl e, fs)
         | Inr data \<Rightarrow>
             (case py_update data new_data of
                Inl e \<Rightarrow> (Inl e, fs)
              | Inr data' \<Rightarrow> (Inr Saved, dump data'))))"

definition find_password :: "ucd \<Rightarrow> pystr \<Rightarrow> file_system \<Rightarrow> py_error + find_outcome" where
  "find_password u field fs =
     (let website = title u field in
      case load fs of
        Inl e \<Rightarrow> if e = FileNotFoundError then Inr StoreMissing else Inl e
      | Inr data \<Rightarrow>
          err_bind (py_contains website data) (\<lambda>present.
            if present then
              err_bind (py_getitem data website) (\<lambda>entry.
              err_bind (py_getitem entry (str ''email'')) (\<lambda>email.
              err_bind (py_getitem data website) (\<lambda>entry'.
              err_bind (py_getitem entry' (str ''password'')) (\<lambda>password.
                Inr (Found website email password)))))
            else Inr (EntryNotFound website)))"

text \<open>
  The data model's invariant on the file: when it is present and parses, it is a dict
  whose values are credential records.
\<close>

fun is_credential :: "json \<Rightarrow> bool" where
  "is_credential (JObj [(k1, JStr e), (k2, JStr p)]) =
     (k1 = str ''email'' \<and> k2 = str ''password'')"
| "is_credential _ = False"

fun is_dict :: "json \<Rightarrow> bool" where
  "is_dict (JObj d) = True"
| "is_dict _ = False"

fun valid_store :: "json \<Rightarrow> bool" where
  "valid_store (JObj d) = list_all is_credential (map snd d)"
| "valid_store _ = False"

fun store_ok :: "file_system \<Rightarrow> bool" where
  "store_ok (Some (Document data)) = valid_store data"
| "store_ok _ = True"

text \<open>The store \<^const>\<open>save\<close> starts from: empty when the file is absent or malformed.\<close>

fun entries :: "file_system \<Rightarrow> (pystr \<times> json) list" where
  "entries (Some (Document (JObj d))) = d"
| "entries _ = []"

text \<open>What \<^const>\<open>save\<close> needs of the file to run to its end: absent, malformed (the
  \<^verbatim>\<open>JSONDecodeError\<close> it catches), or a dict.\<close>

fun store_is_dict :: "file_system \<Rightarrow> bool" where
  "store_is_dict None = True"
| "store_is_dict (Some Malformed) = True"
| "store_is_dict (Some (Document data)) = is_dict data"
| "store_is_dict (Some _) = False"

text \<open>A file that is there and that \<^const>\<open>load\<close> cannot read.\<close>

fun unreadable :: "file_system \<Rightarrow> bool" where
  "unreadable None = False"
| "unreadable (Some (Document data)) = False"
| "unreadable (Some _) = True"

section \<open>The password generator\<close>

text \<open>
  The module \<^verbatim>\<open>random\<close> is modelled by its contract. The state of the generator is
  the stream of raw draws still to come, and every call consumes one draw:
  \<^verbatim>\<open>_randbelow(n)\<close> returns a number below \<^verbatim>\<open>n\<close> (it is only called with \<^verbatim>\<open>n > 0\<close>);
  \<^verbatim>\<open>randint(a, b)\<close> is \<^verbatim>\<open>a + _randbelow(b - a + 1)\<close> and raises \<^verbatim>\<open>ValueError\<close> on an
  empty range; \<^verbatim>\<open>choice(seq)\<close> is \<^verbatim>\<open>seq[_randbelow(len(seq))]\<close> and raises
  \<^verbatim>\<open>IndexError\<close> on an empty sequence; \<^verbatim>\<open>shuffle(x)\<close> walks \<^verbatim>\<open>i\<close> from
  \<^verbatim>\<open>len(x) - 1\<close> down to \<^verbatim>\<open>1\<close> and exchanges \<^verbatim>\<open>x[i]\<close> with \<^verbatim>\<open>x[_randbelow(i + 1)]\<close>.
  Every stream is a possible run, so a statement for all streams is a statement for
  all calls.
\<close>

type_synonym rng = "nat \<Rightarrow> nat"

definition randbelow :: "nat \<Rightarrow> rng \<Rightarrow> nat \<times> rng" where
  "randbelow n g = (g 0 mod n, \<lambda>i. g (Suc i))"

definition randint :: "nat \<Rightarrow> nat \<Rightarrow> rng \<Rightarrow> py_error + nat \<times> rng" where
  "randint a b g =
     (if b < a then Inl ValueError
      else (let (r, g') = randbelow (b - a + 1) g in Inr (a + r, g')))"

definition choice :: "'a list \<Rightarrow> rng \<Rightarrow> py_error + 'a \<times> rng" where
  "choice seq g =
     (if seq = [] then Inl IndexError
      else (let (i, g') = randbelow (length seq) g in Inr (seq ! i, g')))"

fun shuffle_from :: "nat \<Rightarrow> 'a list \<Rightarrow> rng \<Rightarrow> 'a list \<times> rng" where
  "shuffle_from 0 x g = (x, g)"
| "shuffle_from (Suc i) x g =
     (let (j, g') = randbelow (Suc i + 1) g
      in shuffle_from i (x[Suc i := x ! j, j := x ! Suc i]) g')"

definition shuffle :: "'a list \<Rightarrow> rng \<Rightarrow> 'a list \<times> rng" where
  "shuffle x g = shuffle_from (length x - 1) x g"

text \<open>\<^verbatim>\<open>for _ in range(n): password_list.append(random.choice(pool))\<close>\<close>

fun append_choices :: "nat \<Rightarrow> 'a list \<Rightarrow> 'a list \<Rightarrow> rng \<Rightarrow> py_error + 'a list \<times> rng" where
  "append_choices 0 pool password_list g = Inr (password_list, g)"
| "append_choices (Suc n) pool password_list g =
     err_bind (choice pool g) (\<lambda>(c, g'). append_choices n pool (password_list @ [c]) g')"

text \<open>The pools are lists of ASCII characters; these are the letters and the digits
  among the characters.\<close>

definition is_upper :: "char \<Rightarrow> bool" where
  "is_upper c = (65 \<le> (of_char c :: nat) \<and> (of_char c :: nat) \<le> 90)"

definition is_lower :: "char \<Rightarrow> bool" where
  "is_lower c = (97 \<le> (of_char c :: nat) \<and> (of_char c :: nat) \<le> 122)"

definition is_cased :: "char \<Rightarrow> bool" where
  "is_cased c = (is_upper c \<or> is_lower c)"

definition is_digit :: "char \<Rightarrow> bool" where
  "is_digit c = (48 \<le> (of_char c :: nat) \<and> (of_char c :: nat) \<le> 57)"

text \<open>The three pools of \<^verbatim>\<open>PasswordGenerator.__init__\<close>.\<close>

definition letters :: string where
  "letters = ''abcdefghijklmnopqrstuvwxyzABCDEFGHIJKLMNOPQRSTUVWXYZ''"

definition numbers :: string where
  "numbers = ''0123456789''"

definition symbols :: string where
  "symbols = ''!#$%&()*+''"

text \<open>\<^verbatim>\<open>PasswordGenerator.generate\<close>: the password and the generator state it leaves.\<close>

definition generate :: "rng \<Rightarrow> py_error + string \<times> rng" where
  "generate g =
     err_bind (randint 8 10 g) (\<lambda>(nr_letter, g1).
     err_bind (randint 2 5 g1) (\<lambda>(nr_symbols, g2).
     err_bind (randint 2 5 g2) (\<lambda>(nr_numbers, g3).
     err_bind (append_choices nr_letter letters [] g3) (\<lambda>(l1, g4).
     err_bind (append_choices nr_symbols symbols l1 g4) (\<lambda>(l2, g5).
     err_bind (append_choices nr_numbers numbers l2 g5) (\<lambda>(l3, g6).
       Inr (shuffle l3 g6)))))))"

text \<open>How many characters of a string belong to a pool.\<close>

definition count_in :: "string \<Rightarrow> string \<Rightarrow> nat" where
  "count_in pool s = length (filter (\<lambda>c. c \<in> set pool) s)"

section \<open>Facts about \<^const>\<open>title\<close>\<close>

text \<open>The loop in closed form: what is written for the code point at each index.\<close>

lemma title_loop_concat:
  "title_loop u b before s =
     concat (map (\<lambda>i. if (if i = 0 then b else cased u (s ! (i - 1)))
                       then lower_ucs4 u (rev (take i s) @ before) (s ! i) (drop (Suc i) s)
                       else title_full u (s ! i)) [0..<length s])"
proof (induction s arbitrary: b before)
  case Nil
  then show ?case by simp
next
  case (Cons c cs)
  have shift: "[0..<length (c # cs)] = 0 # map Suc [0..<length cs]"
    by (simp add: upt_conv_Cons map_Suc_upt del: upt_Suc)
  have tail: "map (\<lambda>i. if (if i = 0 then cased u c else cased u (cs ! (i - 1)))
                       then lower_ucs4 u (rev (take i cs) @ c # before) (cs ! i) (drop (Suc i) cs)
                       else title_full u (cs ! i)) [0..<length cs]
    = map ((\<lambda>i. if (if i = 0 then b else cased u ((c # cs) ! (i - 1)))
                       then lower_ucs4 u (rev (take i (c # cs)) @ before) ((c # cs) ! i)
                              (drop (Suc i) (c # cs))
                       else title_full u ((c # cs) ! i)) \<circ> Suc) [0..<length cs]"
    by (rule map_cong) (auto simp: nth_Cons')
  show ?case
    unfolding shift by (simp add: Cons.IH tail del: upt_Suc)
qed

lemma title_concat:
  "title u s =
     concat (map (\<lambda>i. if 0 < i \<and> cased u (s ! (i - 1))
                       then lower_ucs4 u (rev (take i s)) (s ! i) (drop (Suc i) s)
                       else title_full u (s ! i)) [0..<length s])"
  unfolding title_def title_loop_concat
  by (rule arg_cong[where f = concat], rule map_cong) auto

text \<open>On ASCII text the database plays no role: the key has the length of the text,
  and each character is upper-cased or lower-cased in place.\<close>

lemma lower_ucs4_ascii: "c < 128 \<Longrightarrow> lower_ucs4 u before c after = [ascii_to_lower c]"
  by (simp add: lower_ucs4_def lower_full_def)

lemma title_full_ascii: "c < 128 \<Longrightarrow> title_full u c = [ascii_to_upper c]"
  by (simp add: title_full_def)

lemma cased_ascii: "c < 128 \<Longrightarrow> cased u c = (ascii_upper c \<or> ascii_lower c)"
  by (simp add: cased_def)

lemma title_loop_ascii:
  "list_all (\<lambda>c. c < 128) s \<Longrightarrow>
   title_loop u b before s =
     map (\<lambda>i. if (if i = 0 then b else ascii_upper (s ! (i - 1)) \<or> ascii_lower (s ! (i - 1)))
               then ascii_to_lower (s ! i) else ascii_to_upper (s ! i)) [0..<length s]"
proof (induction s arbitrary: b before)
  case Nil
  then show ?case by simp
next
  case (Cons c cs)
  then have c: "c < 128" and cs: "list_all (\<lambda>c. c < 128) cs" by simp_all
  have shift: "[0..<length (c # cs)] = 0 # map Suc [0..<length cs]"
    by (simp add: upt_conv_Cons map_Suc_upt del: upt_Suc)
  have tail: "map (\<lambda>i. if (if i = 0 then ascii_upper c \<or> ascii_lower c
                            else ascii_upper (cs ! (i - 1)) \<or> ascii_lower (cs ! (i - 1)))
               then ascii_to_lower (cs ! i) else ascii_to_upper (cs ! i)) [0..<length cs]
    = map ((\<lambda>i. if (if i = 0 then b
                      else ascii_upper ((c # cs) ! (i - 1)) \<or> ascii_lower ((c # cs) ! (i - 1)))
               then ascii_to_lower ((c # cs) ! i) else ascii_to_upper ((c # cs) ! i)) \<circ> Suc)
        [0..<length cs]"
    by (rule map_cong) (auto simp: nth_Cons')
  show ?case
    unfolding shift
    by (simp add: Cons.IH[OF cs] tail lower_ucs4_ascii[OF c] title_full_ascii[OF c]
        cased_ascii[OF c] del: upt_Suc)
qed

lemma title_ascii:
  assumes "list_all (\<lambda>c. c < 128) s"
  shows "length (title u s) = length s"
    and "i < length s \<Longrightarrow>
      title u s ! i =
        (if 0 < i \<and> (ascii_upper (s ! (i - 1)) \<or> ascii_lower (s ! (i - 1)))
         then ascii_to_lower (s ! i) else ascii_to_upper (s ! i))"
proof -
  show "length (title u s) = length s"
    using assms by (simp add: title_def title_loop_ascii)
  assume "i < length s"
  then have "[0..<length s] ! i = i" by simp
  with \<open>i < length s\<close> assms show "title u s ! i =
        (if 0 < i \<and> (ascii_upper (s ! (i - 1)) \<or> ascii_lower (s ! (i - 1)))
         then ascii_to_lower (s ! i) else ascii_to_upper (s ! i))"
    by (cases i) (simp_all add: title_def title_loop_ascii del: upt_Suc)
qed

text \<open>Text without a letter, ASCII whitespace for one, is its own key.\<close>

lemma title_loop_uncased_ascii:
  "(\<And>c. c \<in> set s \<Longrightarrow> c < 128 \<and> \<not> ascii_upper c \<and> \<not> ascii_lower c) \<Longrightarrow>
   title_loop u b before s = s"
proof (induction s arbitrary: b before)
  case Nil
  then show ?case by simp
next
  case (Cons c cs)
  from Cons.prems[of c] have c: "c < 128" "\<not> ascii_upper c" "\<not> ascii_lower c"
    by simp_all
  have "title_loop u (cased u c) (c # before) cs = cs"
    using Cons.prems by (intro Cons.IH) simp
  with c show ?case
    by (simp add: lower_ucs4_ascii title_full_ascii ascii_to_lower_def ascii_to_upper_def)
qed

lemma whitespace_uncased:
  "is_whitespace c \<Longrightarrow> c < 128 \<and> \<not> ascii_upper c \<and> \<not> ascii_lower c"
  by (auto simp: is_whitespace_def ascii_upper_def ascii_lower_def)

lemmas title_eval =
  title_def str_def cp_def cased_def title_full_def lower_ucs4_def lower_full_def
  ascii_upper_def ascii_lower_def ascii_to_upper_def ascii_to_lower_def

lemma title_x: "title u (str ''x'') = str ''X''"
  by (simp add: title_eval)

lemma title_example: "title u (str ''example.com'') = str ''Example.Com''"
  by (simp add: title_eval)

lemma title_Example: "title u (str ''Example.Com'') = str ''Example.Com''"
  by (simp add: title_eval)

text \<open>Beyond ASCII the key depends on the database, and its length can differ from
  the length of the text: sharp s and \<^verbatim>\<open>x\<close> give \<^verbatim>\<open>Ssx\<close>; \<^verbatim>\<open>U+00E9\<close> and \<^verbatim>\<open>cole\<close>
  give \<^verbatim>\<open>U+00C9\<close> and \<^verbatim>\<open>cole\<close>; a capital sigma after \<^verbatim>\<open>a\<close> becomes the final sigma
  at the end of the word and the small sigma inside it.\<close>

lemma title_beyond_ascii:
  "title sample_ucd [223, 120] = str ''Ssx''"
  "title sample_ucd (233 # str ''cole'') = 201 # str ''cole''"
  "title sample_ucd (str ''a'' @ [931]) = str ''A'' @ [962]"
  "title sample_ucd (str ''a'' @ [931] @ str ''.b'') = str ''A'' @ [963] @ str ''.B''"
  "title sample_ucd (str ''a'' @ [931] @ str ''. b'') = str ''A'' @ [962] @ str ''. B''"
  by (simp_all add: title_eval sample_ucd_def handle_capital_sigma_def case_ignorable_def)

section \<open>Facts about the store operations\<close>

lemma err_bind_eq_Inr: "(err_bind m f = Inr y) = (\<exists>x. m = Inr x \<and> f x = Inr y)"
  by (cases m) auto

lemma dict_update_single: "dict_update d [(k, v)] = AList.update k v d"
  by (simp add: dict_update_def)

lemma save_empty:
  "website = [] \<or> email = [] \<or> password = [] \<Longrightarrow>
   save u website email password fs = (Inr EmptyField, fs)"
  by (auto simp: save_def)

lemma save_invalid_email:
  "website \<noteq> [] \<Longrightarrow> email \<noteq> [] \<Longrightarrow> password \<noteq> [] \<Longrightarrow>
   cp CHR ''@'' \<notin> set email \<or> cp CHR ''.'' \<notin> set email \<Longrightarrow>
   save u website email password fs = (Inr InvalidEmail, fs)"
  by (auto simp: save_def)

lemma save_valid:
  assumes "website \<noteq> []" "email \<noteq> []" "password \<noteq> []"
    and "cp CHR ''@'' \<in> set email" "cp CHR ''.'' \<in> set email"
    and "store_is_dict fs"
  shows "save u website email password fs =
    (Inr Saved, Some (Document (JObj
       (AList.update (title u website) (credential email password) (entries fs)))))"
proof (cases fs rule: store_is_dict.cases)
  case 1
  with assms show ?thesis
    by (simp add: save_def load_def py_update_def dict_update_single dump_def)
next
  case 2
  with assms show ?thesis
    by (simp add: save_def load_def py_update_def dict_update_single dump_def)
next
  case (3 data)
  with assms obtain d where "data = JObj d"
    by (cases data) auto
  with 3 assms show ?thesis
    by (simp add: save_def load_def py_update_def dict_update_single dump_def)
qed (use assms in simp_all)

lemma save_Saved_D:
  assumes "save u website email password fs = (Inr Saved, fs')"
  shows "website \<noteq> [] \<and> email \<noteq> [] \<and> password \<noteq> [] \<and>
    cp CHR ''@'' \<in> set email \<and> cp CHR ''.'' \<in> set email \<and> store_is_dict fs"
  using assms
  by (auto simp: save_def load_def py_update_def
      split: if_splits option.splits file_content.splits json.splits sum.splits)

lemma save_Saved_file:
  assumes "save u website email password fs = (Inr Saved, fs')"
  shows "fs' = Some (Document (JObj
    (AList.update (title u website) (credential email password) (entries fs))))"
  using save_Saved_D[OF assms] assms by (simp add: save_valid)

lemma filter_update_other:
  "filter (\<lambda>kv. fst kv \<noteq> k) (AList.update k v d) = filter (\<lambda>kv. fst kv \<noteq> k) d"
  by (induction d) auto

lemma filter_update_same:
  "distinct (map fst d) \<Longrightarrow> filter (\<lambda>kv. fst kv = k) (AList.update k v d) = [(k, v)]"
proof (induction d)
  case Nil
  then show ?case by simp
next
  case (Cons a d)
  show ?case
  proof (cases "fst a = k")
    case True
    with Cons.prems have "k \<notin> fst ` set d" by auto
    then have "filter (\<lambda>kv. fst kv = k) d = []"
      by (auto simp: filter_empty_conv)
    with True show ?thesis by simp
  next
    case False
    with Cons show ?thesis by simp
  qed
qed

lemma find_in_dict:
  "find_password u field (Some (Document (JObj d))) =
     (case map_of d (title u field) of
        None \<Rightarrow> Inr (EntryNotFound (title u field))
      | Some entry \<Rightarrow>
          err_bind (py_getitem entry (str ''email'')) (\<lambda>email.
          err_bind (py_getitem entry (str ''password'')) (\<lambda>password.
            Inr (Found (title u field) email password))))"
proof (cases "map_of d (title u field)")
  case None
  then have "title u field \<notin> fst ` set d" by (simp add: map_of_eq_None_iff)
  with None show ?thesis
    by (simp add: find_password_def load_def py_contains_def)
next
  case (Some entry)
  then have "title u field \<in> fst ` set d"
    by (metis map_of_eq_None_iff option.distinct(1))
  with Some show ?thesis
    by (simp add: find_password_def load_def py_contains_def py_getitem_def)
qed

lemma getitem_credential:
  "py_getitem (credential e p) (str ''email'') = Inr (JStr e)"
  "py_getitem (credential e p) (str ''password'') = Inr (JStr p)"
  by (simp_all add: credential_def py_getitem_def str_def cp_def)

lemma is_credential_D: "is_credential v \<Longrightarrow> \<exists>e p. v = credential e p"
  by (erule is_credential.elims) (simp_all add: credential_def)

lemma is_credential_credential: "is_credential (credential e p)"
  by (simp add: credential_def)

lemma find_missing: "find_password u website None = Inr StoreMissing"
  by (simp add: find_password_def load_def)

text \<open>\<^verbatim>\<open>find_password\<close> catches \<^verbatim>\<open>FileNotFoundError\<close> and nothing else: whatever reading
  an unreadable file raises leaves the function.\<close>

lemma load_unreadable:
  "unreadable fs \<Longrightarrow> \<exists>e. load fs = Inl e \<and> e \<noteq> FileNotFoundError"
  by (cases fs rule: unreadable.cases) (simp_all add: load_def)

lemma find_load_error:
  "load fs = Inl e \<Longrightarrow> e \<noteq> FileNotFoundError \<Longrightarrow> find_password u website fs = Inl e"
  by (simp add: find_password_def)

lemma find_unreadable:
  "unreadable fs \<Longrightarrow> \<exists>e. load fs = Inl e \<and> find_password u website fs = Inl e"
  using load_unreadable[of fs] by (auto simp: find_load_error)

text \<open>\<^verbatim>\<open>save\<close> catches \<^verbatim>\<open>FileNotFoundError\<close> and \<^verbatim>\<open>JSONDecodeError\<close>: any other
  exception of the read leaves the function, before the file is opened for writing.\<close>

lemma save_load_error:
  assumes "website \<noteq> []" "email \<noteq> []" "password \<noteq> []"
    and "cp CHR ''@'' \<in> set email" "cp CHR ''.'' \<in> set email"
    and "load fs = Inl e" "e \<noteq> FileNotFoundError" "e \<noteq> JSONDecodeError"
  shows "save u website email password fs = (Inl e, fs)"
  using assms by (simp add: save_def)

lemma find_absent_key:
  "title u website \<notin> fst ` set d \<Longrightarrow>
   find_password u website (Some (Document (JObj d))) = Inr (EntryNotFound (title u website))"
  by (simp add: find_in_dict map_of_eq_None_iff[THEN iffD2])

lemma find_present_key:
  assumes "map_of d (title u website) = Some (credential e p)"
  shows "find_password u website (Some (Document (JObj d))) =
    Inr (Found (title u website) (JStr e) (JStr p))"
  using assms by (simp add: find_in_dict getitem_credential)

lemma find_Found_D:
  assumes "find_password u website fs = Inr (Found w e p)"
  shows "\<exists>d. fs = Some (Document (JObj d)) \<and> title u website \<in> fst ` set d \<and> w = title u website"
proof (cases "unreadable fs")
  case True
  from find_unreadable[OF this, of u website] assms show ?thesis by auto
next
  case False
  show ?thesis
  proof (cases fs)
    case None
    with assms show ?thesis by (simp add: find_missing)
  next
    case (Some content)
    with False obtain data where Document: "content = Document data"
      by (cases content) auto
    show ?thesis
    proof (cases data)
      case (JObj d)
      have "title u website \<in> fst ` set d"
      proof (rule ccontr)
        assume "title u website \<notin> fst ` set d"
        from find_absent_key[OF this] assms Some Document JObj show False by simp
      qed
      moreover from assms Some Document JObj have "w = title u website"
        by (auto simp: find_in_dict err_bind_eq_Inr split: option.splits)
      ultimately show ?thesis using Some Document JObj by simp
    qed (use assms Some Document in
        \<open>auto simp: find_password_def load_def py_contains_def py_getitem_def Let_def
           split: if_splits\<close>)
  qed
qed

lemma valid_store_lookup:
  assumes "list_all is_credential (map snd d)" and "k \<in> fst ` set d"
  shows "\<exists>e p. map_of d k = Some (credential e p)"
proof -
  from assms(2) obtain v where v: "map_of d k = Some v"
    by (metis map_of_eq_None_iff not_Some_eq)
  then have "(k, v) \<in> set d" by (rule map_of_SomeD)
  with assms(1) have "is_credential v"
    by (auto simp: list_all_iff)
  with v show ?thesis by (auto dest: is_credential_D)
qed

text \<open>The invariant is the program's own: \<^const>\<open>save\<close> keeps it, whatever it returns.\<close>

lemma update_keeps_credentials:
  "list_all is_credential (map snd d) \<Longrightarrow>
   list_all is_credential (map snd (AList.update k (credential e p) d))"
  by (induction d) (auto simp: is_credential_credential)

lemma save_keeps_store_ok:
  assumes "store_ok fs"
  shows "store_ok (snd (save u website email password fs))"
proof (cases "fst (save u website email password fs) = Inr Saved")
  case True
  then have s: "save u website email password fs = (Inr Saved, snd (save u website email password fs))"
    by (metis prod.collapse)
  have "list_all is_credential (map snd (entries fs))"
    using assms by (cases fs rule: entries.cases) simp_all
  then show ?thesis
    by (simp add: save_Saved_file[OF s] update_keeps_credentials)
next
  case False
  then have "snd (save u website email password fs) = fs"
    by (auto simp: save_def Let_def split: if_splits sum.splits)
  with assms show ?thesis by simp
qed

text \<open>So is what \<^const>\<open>save\<close> needs of the file: true of the absent file, and kept.\<close>

lemma save_keeps_store_is_dict:
  assumes "store_is_dict fs"
  shows "store_is_dict (snd (save u website email password fs))"
proof (cases "fst (save u website email password fs) = Inr Saved")
  case True
  then have s: "save u website email password fs = (Inr Saved, snd (save u website email password fs))"
    by (metis prod.collapse)
  show ?thesis
    by (simp add: save_Saved_file[OF s])
next
  case False
  then have "snd (save u website email password fs) = fs"
    by (auto simp: save_def Let_def split: if_splits sum.splits)
  with assms show ?thesis by simp
qed

text \<open>
  Outside the invariant the two functions raise: \<^verbatim>\<open>save\<close> on a document that is not a
  dict (\<^verbatim>\<open>data.update\<close>), \<^verbatim>\<open>find_password\<close> on an entry that is not a record
  (\<^verbatim>\<open>data[website]["email"]\<close>). Neither changes the file.
\<close>

lemma save_not_dict_raises:
  "save u (str ''x'') (str ''a@b.com'') (str ''pw'') (Some (Document (JArr []))) =
     (Inl AttributeError, Some (Document (JArr [])))"
  by (simp add: save_def load_def py_update_def str_def cp_def)

lemma find_not_record_raises:
  "find_password u (str ''x'') (Some (Document (JObj [((str ''X''), JInt 1)]))) = Inl TypeError"
  by (simp add: find_in_dict title_x py_getitem_def)

text \<open>What \<^const>\<open>save\<close> does handle: over the absent file and over the file that
  \<^verbatim>\<open>json.load\<close> rejects with \<^verbatim>\<open>JSONDecodeError\<close> it starts a store of one entry.\<close>

lemma save_self_healing:
  assumes "website \<noteq> []" "email \<noteq> []" "password \<noteq> []"
    and "cp CHR ''@'' \<in> set email" "cp CHR ''.'' \<in> set email"
    and "fs = None \<or> fs = Some Malformed"
  shows "save u website email password fs =
    (Inr Saved, Some (Document (JObj [(title u website, credential email password)])))"
proof -
  from assms(6) have "store_is_dict fs" "entries fs = []" by auto
  with save_valid[OF assms(1-5), of fs u] show ?thesis by simp
qed

section \<open>Facts about the generator\<close>

lemma randint_ok:
  assumes "a \<le> b"
  shows "\<exists>r g'. randint a b g = Inr (r, g') \<and> a \<le> r \<and> r \<le> b"
proof -
  have "g 0 mod (b - a + 1) < b - a + 1" by simp
  with assms have "a + g 0 mod (b - a + 1) \<le> b" by linarith
  with assms show ?thesis by (simp add: randint_def randbelow_def)
qed

lemma choice_ok:
  "pool \<noteq> [] \<Longrightarrow> \<exists>c g'. choice pool g = Inr (c, g') \<and> c \<in> set pool"
  by (simp add: choice_def randbelow_def)

lemma append_choices_ok:
  "pool \<noteq> [] \<Longrightarrow>
   \<exists>cs g'. append_choices n pool acc g = Inr (acc @ cs, g') \<and> length cs = n \<and> set cs \<subseteq> set pool"
proof (induction n arbitrary: acc g)
  case 0
  then show ?case by simp
next
  case (Suc n)
  from choice_ok[OF Suc.prems] obtain c g1 where c: "choice pool g = Inr (c, g1)" "c \<in> set pool"
    by blast
  from Suc.IH[OF Suc.prems, of "acc @ [c]" g1] obtain cs g' where
    cs: "append_choices n pool (acc @ [c]) g1 = Inr ((acc @ [c]) @ cs, g')"
      "length cs = n" "set cs \<subseteq> set pool"
    by blast
  have "append_choices (Suc n) pool acc g = Inr (acc @ (c # cs), g')"
    using c(1) cs(1) by simp
  moreover have "length (c # cs) = Suc n" using cs(2) by simp
  moreover have "set (c # cs) \<subseteq> set pool" using c(2) cs(3) by simp
  ultimately show ?case by blast
qed

text \<open>Every exchange of the shuffle stays inside the list, so its content is kept.\<close>

lemma shuffle_from_mset:
  "i < length x \<or> i = 0 \<Longrightarrow> mset (fst (shuffle_from i x g)) = mset x"
proof (induction i arbitrary: x g)
  case 0
  then show ?case by simp
next
  case (Suc i)
  then have len: "Suc i < length x" by simp
  let ?j = "g 0 mod (Suc i + 1)"
  have "?j < Suc i + 1" by simp
  with len have j: "?j < length x" by linarith
  let ?x' = "x[Suc i := x ! ?j, ?j := x ! Suc i]"
  have swap: "mset ?x' = mset x" using j len by (rule mset_swap)
  have "i < length ?x'" using len by simp
  then have "mset (fst (shuffle_from i ?x' (\<lambda>i. g (Suc i)))) = mset ?x'"
    using Suc.IH by blast
  with swap show ?case by (simp add: randbelow_def)
qed

lemma shuffle_mset: "mset (fst (shuffle x g)) = mset x"
  unfolding shuffle_def by (rule shuffle_from_mset) (cases x; simp)

lemma randbelow_zero: "randbelow n (\<lambda>i. 0) = (0, \<lambda>i. 0)"
  by (simp add: randbelow_def)

lemma pools_disjoint:
  "c \<in> set symbols \<Longrightarrow> c \<notin> set letters"
  "c \<in> set numbers \<Longrightarrow> c \<notin> set letters"
  "c \<in> set letters \<Longrightarrow> c \<notin> set symbols"
  "c \<in> set numbers \<Longrightarrow> c \<notin> set symbols"
  "c \<in> set letters \<Longrightarrow> c \<notin> set numbers"
  "c \<in> set symbols \<Longrightarrow> c \<notin> set numbers"
  by (auto simp: letters_def symbols_def numbers_def)

lemma pools_nonempty: "letters \<noteq> []" "symbols \<noteq> []" "numbers \<noteq> []"
  by (simp_all add: letters_def symbols_def numbers_def)

lemma pools_content:
  "length letters = 52 \<and> distinct letters \<and> list_all is_cased letters \<and>
   length numbers = 10 \<and> distinct numbers \<and> list_all is_digit numbers \<and>
   length symbols = 9 \<and> distinct symbols \<and>
   set symbols = {CHR ''!'', CHR ''#'', CHR ''$'', CHR ''%'', CHR ''&'',
                  CHR ''('', CHR '')'', CHR ''*'', CHR ''+''}"
  by (simp add: letters_def numbers_def symbols_def is_cased_def is_upper_def is_lower_def
      is_digit_def)

lemma count_in_mset: "count_in pool s = size (filter_mset (\<lambda>c. c \<in> set pool) (mset s))"
  by (simp add: count_in_def flip: mset_filter)

lemma count_in_all: "set s \<subseteq> set pool \<Longrightarrow> count_in pool s = length s"
  unfolding count_in_def by (induction s) auto

lemma count_in_none: "(\<And>c. c \<in> set s \<Longrightarrow> c \<notin> set pool) \<Longrightarrow> count_in pool s = 0"
  unfolding count_in_def by (induction s) auto

lemma count_in_append: "count_in pool (xs @ ys) = count_in pool xs + count_in pool ys"
  by (simp add: count_in_def)

lemma count_in_cong: "mset s = mset t \<Longrightarrow> count_in pool s = count_in pool t"
  by (simp add: count_in_mset)

text \<open>What \<^const>\<open>generate\<close> hands to the shuffle: letters, then symbols, then digits.\<close>

lemma generate_shape:
  "\<exists>ls ss ns g6.
     generate g = Inr (shuffle (ls @ ss @ ns) g6) \<and>
     8 \<le> length ls \<and> length ls \<le> 10 \<and> set ls \<subseteq> set letters \<and>
     2 \<le> length ss \<and> length ss \<le> 5 \<and> set ss \<subseteq> set symbols \<and>
     2 \<le> length ns \<and> length ns \<le> 5 \<and> set ns \<subseteq> set numbers"
proof -
  obtain nl g1 where nl: "randint 8 10 g = Inr (nl, g1)" "8 \<le> nl" "nl \<le> 10"
    using randint_ok[of 8 10 g] by auto
  obtain nsy g2 where nsy: "randint 2 5 g1 = Inr (nsy, g2)" "2 \<le> nsy" "nsy \<le> 5"
    using randint_ok[of 2 5 g1] by auto
  obtain nn g3 where nn: "randint 2 5 g2 = Inr (nn, g3)" "2 \<le> nn" "nn \<le> 5"
    using randint_ok[of 2 5 g2] by auto
  obtain ls g4 where ls: "append_choices nl letters [] g3 = Inr ([] @ ls, g4)"
      "length ls = nl" "set ls \<subseteq> set letters"
    using append_choices_ok[OF pools_nonempty(1), of nl "[]" g3] by blast
  obtain ss g5 where ss: "append_choices nsy symbols ls g4 = Inr (ls @ ss, g5)"
      "length ss = nsy" "set ss \<subseteq> set symbols"
    using append_choices_ok[OF pools_nonempty(2), of nsy ls g4] by blast
  obtain ns g6 where ns: "append_choices nn numbers (ls @ ss) g5 = Inr ((ls @ ss) @ ns, g6)"
      "length ns = nn" "set ns \<subseteq> set numbers"
    using append_choices_ok[OF pools_nonempty(3), of nn "ls @ ss" g5] by blast
  have "generate g = Inr (shuffle (ls @ ss @ ns) g6)"
    using nl(1) nsy(1) nn(1) ls(1) ss(1) ns(1) by (simp add: generate_def)
  with nl nsy nn ls ss ns show ?thesis by blast
qed

lemma generate_zero: "generate (\<lambda>i. 0) = Inr (''aaaaaaa!!00a'', \<lambda>i. 0)"
  by (simp add: generate_def randint_def randbelow_zero choice_def shuffle_def
      letters_def symbols_def numbers_def eval_nat_numeral)

section \<open>The claims\<close>

subsection \<open>C1: composition of a generated password\<close>

text \<open>
  Claim C1. For every call to \<^verbatim>\<open>generate()\<close>, that is for every stream of random draws,
  the call returns a string and raises nothing; the string has between 12 and 20
  characters; at least 8 (and at most 10) of them are from the letters pool, between 2
  and 5 from the symbols pool and between 2 and 5 from the digits pool; every character
  is from one of the three pools. The pools are fixed: 52 distinct ASCII letters, the
  10 distinct decimal digits, and the 9 symbols \<^verbatim>\<open>! # $ % & ( ) * +\<close>.
\<close>

theorem generate_composition:
  "\<exists>pw g'. generate g = Inr (pw, g') \<and>
     12 \<le> length pw \<and> length pw \<le> 20 \<and>
     8 \<le> count_in letters pw \<and> count_in letters pw \<le> 10 \<and>
     2 \<le> count_in symbols pw \<and> count_in symbols pw \<le> 5 \<and>
     2 \<le> count_in numbers pw \<and> count_in numbers pw \<le> 5 \<and>
     length pw = count_in letters pw + count_in symbols pw + count_in numbers pw \<and>
     set pw \<subseteq> set letters \<union> set symbols \<union> set numbers \<and>
     length letters = 52 \<and> distinct letters \<and> list_all is_cased letters \<and>
     length numbers = 10 \<and> distinct numbers \<and> list_all is_digit numbers \<and>
     length symbols = 9 \<and> distinct symbols \<and>
     set symbols = {CHR ''!'', CHR ''#'', CHR ''$'', CHR ''%'', CHR ''&'',
                    CHR ''('', CHR '')'', CHR ''*'', CHR ''+''}"
proof -
  from generate_shape[of g] obtain ls ss ns g6 where
    gen: "generate g = Inr (shuffle (ls @ ss @ ns) g6)" and
    ls: "8 \<le> length ls" "length ls \<le> 10" "set ls \<subseteq> set letters" and
    ss: "2 \<le> length ss" "length ss \<le> 5" "set ss \<subseteq> set symbols" and
    ns: "2 \<le> length ns" "length ns \<le> 5" "set ns \<subseteq> set numbers"
    by blast
  define pw where "pw = fst (shuffle (ls @ ss @ ns) g6)"
  define g' where "g' = snd (shuffle (ls @ ss @ ns) g6)"
  have res: "generate g = Inr (pw, g')" by (simp add: gen pw_def g'_def)
  have m: "mset pw = mset (ls @ ss @ ns)" unfolding pw_def by (rule shuffle_mset)
  have len: "length pw = length ls + length ss + length ns"
    using mset_eq_length[OF m] by simp
  have cl: "count_in letters pw = length ls"
    using ls(3) ss(3) ns(3)
    by (simp add: count_in_cong[OF m] count_in_append count_in_all count_in_none
        pools_disjoint subsetD)
  have cs: "count_in symbols pw = length ss"
    using ls(3) ss(3) ns(3)
    by (simp add: count_in_cong[OF m] count_in_append count_in_all count_in_none
        pools_disjoint subsetD)
  have cn: "count_in numbers pw = length ns"
    using ls(3) ss(3) ns(3)
    by (simp add: count_in_cong[OF m] count_in_append count_in_all count_in_none
        pools_disjoint subsetD)
  have "set pw = set (ls @ ss @ ns)" using m by (rule mset_eq_setD)
  with ls(3) ss(3) ns(3) have sub: "set pw \<subseteq> set letters \<union> set symbols \<union> set numbers"
    by auto
  have "generate g = Inr (pw, g') \<and>
     12 \<le> length pw \<and> length pw \<le> 20 \<and>
     8 \<le> count_in letters pw \<and> count_in letters pw \<le> 10 \<and>
     2 \<le> count_in symbols pw \<and> count_in symbols pw \<le> 5 \<and>
     2 \<le> count_in numbers pw \<and> count_in numbers pw \<le> 5 \<and>
     length pw = count_in letters pw + count_in symbols pw + count_in numbers pw \<and>
     set pw \<subseteq> set letters \<union> set symbols \<union> set numbers"
    using res len cl cs cn sub ls(1,2) ss(1,2) ns(1,2) by simp
  with pools_content show ?thesis by blast
qed

theorem generate_composition_witness:
  "generate (\<lambda>i. 0) = Inr (''aaaaaaa!!00a'', \<lambda>i. 0) \<and>
   length ''aaaaaaa!!00a'' = 12 \<and>
   count_in letters ''aaaaaaa!!00a'' = 8 \<and>
   count_in symbols ''aaaaaaa!!00a'' = 2 \<and>
   count_in numbers ''aaaaaaa!!00a'' = 2"
  using generate_composition[of "\<lambda>i. 0"] generate_zero
  by (simp add: count_in_def letters_def symbols_def numbers_def)

subsection \<open>C2: a saved credential is found again\<close>

text \<open>
  Claim C2. After a successful \<^verbatim>\<open>save(website, email, password)\<close>, from any state of
  the file, \<^verbatim>\<open>find(website')\<close> for any \<^verbatim>\<open>website'\<close> with the same normalised key returns
  the stored credential, both strings unchanged. In particular
  \<^verbatim>\<open>save("example.com", "a@b.com", "pw1")\<close> and then \<^verbatim>\<open>find("Example.Com")\<close> returns
  \<^verbatim>\<open>a@b.com\<close> and \<^verbatim>\<open>pw1\<close>.
\<close>

theorem save_then_find_roundtrip:
  assumes "save u website email password fs = (Inr Saved, fs')"
    and "title u website' = title u website"
  shows "find_password u website' fs' = Inr (Found (title u website) (JStr email) (JStr password))"
proof -
  have "map_of (AList.update (title u website) (credential email password) (entries fs))
          (title u website') = Some (credential email password)"
    by (simp add: assms(2) update_conv')
  from find_present_key[OF this] show ?thesis
    by (simp add: save_Saved_file[OF assms(1)] assms(2))
qed

theorem save_then_find_roundtrip_witness:
  "save sample_ucd (str ''example.com'') (str ''a@b.com'') (str ''pw1'') None =
     (Inr Saved, Some (Document (JObj
        [(str ''Example.Com'', credential (str ''a@b.com'') (str ''pw1''))]))) \<and>
   title sample_ucd (str ''Example.Com'') = title sample_ucd (str ''example.com'') \<and>
   find_password sample_ucd (str ''Example.Com'')
       (Some (Document (JObj [(str ''Example.Com'', credential (str ''a@b.com'') (str ''pw1''))])))
     = Inr (Found (str ''Example.Com'') (JStr (str ''a@b.com'')) (JStr (str ''pw1'')))"
proof -
  have s: "save sample_ucd (str ''example.com'') (str ''a@b.com'') (str ''pw1'') None =
     (Inr Saved, Some (Document (JObj
        [(str ''Example.Com'', credential (str ''a@b.com'') (str ''pw1''))])))"
    using save_valid[where u = sample_ucd and website = "str ''example.com''"
        and email = "str ''a@b.com''" and password = "str ''pw1''" and fs = None]
    by (simp add: title_eval)
  have e: "title sample_ucd (str ''Example.Com'') = title sample_ucd (str ''example.com'')"
    by (simp add: title_example title_Example)
  from save_then_find_roundtrip[OF s e] show ?thesis using s e by (simp add: title_example)
qed

subsection \<open>C3: the key normalisation\<close>

text \<open>
  Claim C3, as stated: the key is the website in title case, where the first letter of
  each whitespace-separated word is capitalised and the rest of the word is
  lower-cased. The program calls \<^verbatim>\<open>str.title()\<close>, for which a word is a run of cased
  letters: \<^verbatim>\<open>example.com\<close> becomes \<^verbatim>\<open>Example.Com\<close>, while the words of the claim
  give \<^verbatim>\<open>Example.com\<close>.
\<close>

theorem title_counterexample:
  "title sample_ucd (str ''example.com'') = str ''Example.Com'' \<and>
   spec_title sample_ucd (str ''example.com'') = str ''Example.com'' \<and>
   title sample_ucd (str ''example.com'') \<noteq> spec_title sample_ucd (str ''example.com'')"
  by (simp add: title_eval spec_title_def is_space_def is_whitespace_def)

text \<open>
  Claim C3, amended. The key is the website in the title case of \<^verbatim>\<open>str.title()\<close>: a
  character that follows a cased letter is lower-cased, and every other character
  (the first, and any that follows a character that is not a cased letter, whitespace
  or not) is title-cased; the key is these mappings one after the other. This holds
  for every string and every character database. \<^verbatim>\<open>save\<close> and \<^verbatim>\<open>find\<close> compute the
  same key from a website: \<^verbatim>\<open>save\<close> files the credential under \<open>title u website\<close>,
  and \<^verbatim>\<open>find\<close> reads a store of one entry at exactly that key.
\<close>

theorem title_normalization:
  "title u website =
     concat (map (\<lambda>i. if 0 < i \<and> cased u (website ! (i - 1))
                       then lower_ucs4 u (rev (take i website)) (website ! i)
                              (drop (Suc i) website)
                       else title_full u (website ! i)) [0..<length website]) \<and>
   (website \<noteq> [] \<and> email \<noteq> [] \<and> password \<noteq> [] \<and>
    cp CHR ''@'' \<in> set email \<and> cp CHR ''.'' \<in> set email \<longrightarrow>
      save u website email password None =
        (Inr Saved, Some (Document (JObj [(title u website, credential email password)])))) \<and>
   find_password u website (Some (Document (JObj [(k, credential email password)]))) =
     (if k = title u website then Inr (Found k (JStr email) (JStr password))
      else Inr (EntryNotFound (title u website)))"
proof (intro conjI impI)
  show "title u website =
     concat (map (\<lambda>i. if 0 < i \<and> cased u (website ! (i - 1))
                       then lower_ucs4 u (rev (take i website)) (website ! i)
                              (drop (Suc i) website)
                       else title_full u (website ! i)) [0..<length website])"
    by (rule title_concat)
next
  assume "website \<noteq> [] \<and> email \<noteq> [] \<and> password \<noteq> [] \<and>
    cp CHR ''@'' \<in> set email \<and> cp CHR ''.'' \<in> set email"
  then show "save u website email password None =
        (Inr Saved, Some (Document (JObj [(title u website, credential email password)])))"
    by (simp add: save_valid)
next
  show "find_password u website (Some (Document (JObj [(k, credential email password)]))) =
     (if k = title u website then Inr (Found k (JStr email) (JStr password))
      else Inr (EntryNotFound (title u website)))"
    by (simp add: find_in_dict getitem_credential)
qed

theorem title_normalization_witness:
  "title sample_ucd (str ''example.com'') = str ''Example.Com'' \<and>
   save sample_ucd (str ''example.com'') (str ''a@b.com'') (str ''pw1'') None =
     (Inr Saved, Some (Document (JObj
        [(str ''Example.Com'', credential (str ''a@b.com'') (str ''pw1''))]))) \<and>
   find_password sample_ucd (str ''example.com'')
       (Some (Document (JObj [(str ''Example.Com'', credential (str ''a@b.com'') (str ''pw1''))])))
     = Inr (Found (str ''Example.Com'') (JStr (str ''a@b.com'')) (JStr (str ''pw1''))) \<and>
   save sample_ucd [223, 120] (str ''a@b.com'') (str ''pw1'') None =
     (Inr Saved, Some (Document (JObj
        [(str ''Ssx'', credential (str ''a@b.com'') (str ''pw1''))])))"
proof -
  have t: "title sample_ucd [223, 120] = str ''Ssx''"
    by (rule title_beyond_ascii(1))
  have v: "str ''example.com'' \<noteq> []" "str ''a@b.com'' \<noteq> []" "str ''pw1'' \<noteq> []"
    "cp CHR ''@'' \<in> set (str ''a@b.com'')" "cp CHR ''.'' \<in> set (str ''a@b.com'')"
    by (simp_all add: str_def cp_def)
  note n1 = title_normalization[where u = sample_ucd and website = "str ''example.com''"
      and email = "str ''a@b.com''" and password = "str ''pw1''" and k = "str ''Example.Com''"]
  note n2 = title_normalization[where u = sample_ucd and website = "[223, 120]"
      and email = "str ''a@b.com''" and password = "str ''pw1''" and k = "str ''Ssx''"]
  from n1[THEN conjunct2] n2[THEN conjunct2] v show ?thesis
    by (simp add: title_example t)
qed

subsection \<open>C4: the order of validation in \<^verbatim>\<open>save\<close>\<close>

text \<open>
  Claim C4. \<^verbatim>\<open>save\<close> validates in a fixed order. If any of the three inputs is the
  empty string it fails with \<open>EmptyField\<close>, whatever the email looks like; otherwise,
  if the email lacks \<^verbatim>\<open>@\<close> or lacks \<^verbatim>\<open>.\<close>, it fails with \<open>InvalidEmail\<close>;
  otherwise validation succeeds (neither message is shown) and, the file being absent,
  malformed or a dict, the store is updated with the new entry.
\<close>

theorem save_validation_order:
  "(website = [] \<or> email = [] \<or> password = [] \<longrightarrow>
      save u website email password fs = (Inr EmptyField, fs)) \<and>
   (website \<noteq> [] \<and> email \<noteq> [] \<and> password \<noteq> [] \<and>
    (cp CHR ''@'' \<notin> set email \<or> cp CHR ''.'' \<notin> set email) \<longrightarrow>
      save u website email password fs = (Inr InvalidEmail, fs)) \<and>
   (website \<noteq> [] \<and> email \<noteq> [] \<and> password \<noteq> [] \<and>
    cp CHR ''@'' \<in> set email \<and> cp CHR ''.'' \<in> set email \<longrightarrow>
      fst (save u website email password fs) \<noteq> Inr EmptyField \<and>
      fst (save u website email password fs) \<noteq> Inr InvalidEmail \<and>
      (store_is_dict fs \<longrightarrow>
        save u website email password fs =
          (Inr Saved, Some (Document (JObj
             (AList.update (title u website) (credential email password) (entries fs)))))))"
proof (intro conjI impI)
  assume "website = [] \<or> email = [] \<or> password = []"
  then show "save u website email password fs = (Inr EmptyField, fs)"
    by (rule save_empty)
next
  assume "website \<noteq> [] \<and> email \<noteq> [] \<and> password \<noteq> [] \<and>
    (cp CHR ''@'' \<notin> set email \<or> cp CHR ''.'' \<notin> set email)"
  then show "save u website email password fs = (Inr InvalidEmail, fs)"
    by (simp add: save_invalid_email)
next
  assume v: "website \<noteq> [] \<and> email \<noteq> [] \<and> password \<noteq> [] \<and>
    cp CHR ''@'' \<in> set email \<and> cp CHR ''.'' \<in> set email"
  then show "fst (save u website email password fs) \<noteq> Inr EmptyField"
    by (auto simp: save_def split: sum.splits)
  from v show "fst (save u website email password fs) \<noteq> Inr InvalidEmail"
    by (auto simp: save_def split: sum.splits)
  assume "store_is_dict fs"
  with v show "save u website email password fs =
          (Inr Saved, Some (Document (JObj
             (AList.update (title u website) (credential email password) (entries fs)))))"
    by (simp add: save_valid)
qed

theorem save_validation_order_witness:
  "save sample_ucd (str ''x'') (str '''') (str ''pw'') None = (Inr EmptyField, None) \<and>
   save sample_ucd (str '''') (str ''noatsign.com'') (str ''pw'') None = (Inr EmptyField, None) \<and>
   save sample_ucd (str ''x'') (str ''noatsign.com'') (str ''pw'') None
     = (Inr InvalidEmail, None) \<and>
   store_is_dict None \<and>
   save sample_ucd (str ''x'') (str ''a@b.com'') (str ''pw'') None =
     (Inr Saved, Some (Document (JObj [(str ''X'', credential (str ''a@b.com'') (str ''pw''))])))"
  using save_validation_order[where u = sample_ucd and website = "str ''x''"
      and email = "str ''''" and password = "str ''pw''" and fs = None]
    save_validation_order[where u = sample_ucd and website = "str ''''"
      and email = "str ''noatsign.com''" and password = "str ''pw''" and fs = None]
    save_validation_order[where u = sample_ucd and website = "str ''x''"
      and email = "str ''noatsign.com''" and password = "str ''pw''" and fs = None]
    save_validation_order[where u = sample_ucd and website = "str ''x''"
      and email = "str ''a@b.com''" and password = "str ''pw''" and fs = None]
  by (simp add: title_eval)

subsection \<open>C5: a failed validation leaves the file alone\<close>

text \<open>
  Claim C5. A call to \<^verbatim>\<open>save\<close> fails validation (\<open>EmptyField\<close> or \<open>InvalidEmail\<close>)
  exactly when an input is empty or the email lacks \<^verbatim>\<open>@\<close> or \<^verbatim>\<open>.\<close>, and then the
  file is exactly what it was before the call: not created, not written, not modified.
\<close>

theorem save_validation_failure_keeps_file:
  "((fst (save u website email password fs) = Inr EmptyField \<or>
     fst (save u website email password fs) = Inr InvalidEmail)
    = (website = [] \<or> email = [] \<or> password = [] \<or>
       cp CHR ''@'' \<notin> set email \<or> cp CHR ''.'' \<notin> set email)) \<and>
   (fst (save u website email password fs) = Inr EmptyField \<or>
    fst (save u website email password fs) = Inr InvalidEmail \<longrightarrow>
      snd (save u website email password fs) = fs)"
  by (auto simp: save_def split: sum.splits)

theorem save_validation_failure_keeps_file_witness:
  "fst (save sample_ucd (str ''x'') (str '''') (str ''pw'') None) = Inr EmptyField \<and>
   snd (save sample_ucd (str ''x'') (str '''') (str ''pw'') None) = None \<and>
   fst (save sample_ucd (str ''x'') (str ''noatsign.com'') (str ''pw'') (Some Malformed))
     = Inr InvalidEmail \<and>
   snd (save sample_ucd (str ''x'') (str ''noatsign.com'') (str ''pw'') (Some Malformed))
     = Some Malformed"
  using save_validation_failure_keeps_file[where u = sample_ucd and website = "str ''x''"
      and email = "str ''''" and password = "str ''pw''" and fs = None]
    save_validation_failure_keeps_file[where u = sample_ucd and website = "str ''x''"
      and email = "str ''noatsign.com''" and password = "str ''pw''" and fs = "Some Malformed"]
    save_empty[where u = sample_ucd and website = "str ''x''"
      and email = "str ''''" and password = "str ''pw''" and fs = None]
    save_invalid_email[where u = sample_ucd and website = "str ''x''"
      and email = "str ''noatsign.com''" and password = "str ''pw''" and fs = "Some Malformed"]
  by (simp add: str_def cp_def)

subsection \<open>C6: \<^verbatim>\<open>save\<close> changes one entry only\<close>

text \<open>
  Claim C6. For every prior state of the store and every successful
  \<^verbatim>\<open>save(website, email, password)\<close>, the rewritten file is a dict in which every entry
  whose key differs from the normalised key of the website is as it was (the same
  entries, in the same order), and in which exactly one entry has the normalised key:
  the new credential, which replaces the record the key had, if it had one.
\<close>

theorem save_frame:
  assumes "save u website email password fs = (Inr Saved, fs')"
    and "distinct (map fst (entries fs))"
  shows "\<exists>d'. fs' = Some (Document (JObj d')) \<and>
    distinct (map fst d') \<and>
    filter (\<lambda>kv. fst kv \<noteq> title u website) d' =
      filter (\<lambda>kv. fst kv \<noteq> title u website) (entries fs) \<and>
    filter (\<lambda>kv. fst kv = title u website) d' = [(title u website, credential email password)] \<and>
    (\<forall>k. k \<noteq> title u website \<longrightarrow> map_of d' k = map_of (entries fs) k) \<and>
    map_of d' (title u website) = Some (credential email password)"
proof -
  let ?d' = "AList.update (title u website) (credential email password) (entries fs)"
  have "fs' = Some (Document (JObj ?d'))"
    by (rule save_Saved_file[OF assms(1)])
  moreover have "distinct (map fst ?d')"
    using assms(2) by (rule distinct_update)
  moreover have "filter (\<lambda>kv. fst kv \<noteq> title u website) ?d' =
      filter (\<lambda>kv. fst kv \<noteq> title u website) (entries fs)"
    by (rule filter_update_other)
  moreover have "filter (\<lambda>kv. fst kv = title u website) ?d' =
      [(title u website, credential email password)]"
    using assms(2) by (rule filter_update_same)
  moreover have "\<forall>k. k \<noteq> title u website \<longrightarrow> map_of ?d' k = map_of (entries fs) k"
    by (simp add: update_conv')
  moreover have "map_of ?d' (title u website) = Some (credential email password)"
    by (simp add: update_conv')
  ultimately show ?thesis by blast
qed

theorem save_frame_witness:
  "save sample_ucd (str ''x'') (str ''a@b.com'') (str ''new'') (Some (Document (JObj
       [(str ''X'', credential (str ''a@b.com'') (str ''old'')),
        (str ''Y'', credential (str ''c@d.org'') (str ''pw2''))])))
     = (Inr Saved, Some (Document (JObj
       [(str ''X'', credential (str ''a@b.com'') (str ''new'')),
        (str ''Y'', credential (str ''c@d.org'') (str ''pw2''))]))) \<and>
   distinct (map fst (entries (Some (Document (JObj
       [(str ''X'', credential (str ''a@b.com'') (str ''old'')),
        (str ''Y'', credential (str ''c@d.org'') (str ''pw2''))]))))) \<and>
   (\<exists>d'. Some (Document (JObj
       [(str ''X'', credential (str ''a@b.com'') (str ''new'')),
        (str ''Y'', credential (str ''c@d.org'') (str ''pw2''))]))
         = Some (Document (JObj d')) \<and>
      filter (\<lambda>kv. fst kv \<noteq> str ''X'') d'
        = [(str ''Y'', credential (str ''c@d.org'') (str ''pw2''))] \<and>
      filter (\<lambda>kv. fst kv = str ''X'') d'
        = [(str ''X'', credential (str ''a@b.com'') (str ''new''))])"
proof -
  let ?fs = "Some (Document (JObj
       [(str ''X'', credential (str ''a@b.com'') (str ''old'')),
        (str ''Y'', credential (str ''c@d.org'') (str ''pw2''))]))"
  have s: "save sample_ucd (str ''x'') (str ''a@b.com'') (str ''new'') ?fs
     = (Inr Saved, Some (Document (JObj
       [(str ''X'', credential (str ''a@b.com'') (str ''new'')),
        (str ''Y'', credential (str ''c@d.org'') (str ''pw2''))])))"
    using save_valid[where u = sample_ucd and website = "str ''x''"
        and email = "str ''a@b.com''" and password = "str ''new''" and fs = ?fs]
    by (simp add: title_eval)
  have d: "distinct (map fst (entries ?fs))" by (simp add: str_def cp_def)
  from save_frame[OF s d] show ?thesis using s d by (simp add: title_eval)
qed

subsection \<open>C7: what \<^verbatim>\<open>find\<close> answers\<close>

text \<open>
  Claim C7. For every website: when the file does not exist, \<^verbatim>\<open>find\<close> answers
  \<open>StoreMissing\<close>, a message and not an exception; when the file is a dict without
  the normalised key, it answers \<open>EntryNotFound\<close> with the normalised website name;
  and, the file satisfying the data model's invariant, \<^verbatim>\<open>find\<close> succeeds (with the
  stored email and password) exactly when the file exists, parses and holds the
  normalised key. In any state at all, a success implies such a file and key.
\<close>

theorem find_password_outcomes:
  "find_password u website None = Inr StoreMissing \<and>
   (title u website \<notin> fst ` set d \<longrightarrow>
      find_password u website (Some (Document (JObj d))) = Inr (EntryNotFound (title u website))) \<and>
   (store_ok fs \<longrightarrow>
      (\<exists>email password.
          find_password u website fs = Inr (Found (title u website) (JStr email) (JStr password)) \<and>
          map_of (entries fs) (title u website) = Some (credential email password))
      = (\<exists>d. fs = Some (Document (JObj d)) \<and> title u website \<in> fst ` set d)) \<and>
   ((\<exists>w email password. find_password u website fs = Inr (Found w email password))
      \<longrightarrow> (\<exists>d. fs = Some (Document (JObj d)) \<and> title u website \<in> fst ` set d))"
proof (intro conjI impI)
  show "find_password u website None = Inr StoreMissing" by (rule find_missing)
next
  assume "title u website \<notin> fst ` set d"
  then show "find_password u website (Some (Document (JObj d))) = Inr (EntryNotFound (title u website))"
    by (rule find_absent_key)
next
  assume ok: "store_ok fs"
  show "(\<exists>email password.
          find_password u website fs = Inr (Found (title u website) (JStr email) (JStr password)) \<and>
          map_of (entries fs) (title u website) = Some (credential email password))
      = (\<exists>d. fs = Some (Document (JObj d)) \<and> title u website \<in> fst ` set d)"
  proof
    assume "\<exists>email password.
          find_password u website fs = Inr (Found (title u website) (JStr email) (JStr password)) \<and>
          map_of (entries fs) (title u website) = Some (credential email password)"
    then show "\<exists>d. fs = Some (Document (JObj d)) \<and> title u website \<in> fst ` set d"
      using find_Found_D by blast
  next
    assume "\<exists>d. fs = Some (Document (JObj d)) \<and> title u website \<in> fst ` set d"
    then obtain d where d: "fs = Some (Document (JObj d))" "title u website \<in> fst ` set d"
      by blast
    with ok have "list_all is_credential (map snd d)" by simp
    from valid_store_lookup[OF this d(2)] obtain e p
      where "map_of d (title u website) = Some (credential e p)" by blast
    with d(1) find_present_key[OF this]
    show "\<exists>email password.
          find_password u website fs = Inr (Found (title u website) (JStr email) (JStr password)) \<and>
          map_of (entries fs) (title u website) = Some (credential email password)"
      by auto
  qed
next
  assume "\<exists>w email password. find_password u website fs = Inr (Found w email password)"
  then show "\<exists>d. fs = Some (Document (JObj d)) \<and> title u website \<in> fst ` set d"
    using find_Found_D by blast
qed

theorem find_password_outcomes_witness:
  "find_password sample_ucd (str ''x'') None = Inr StoreMissing \<and>
   title sample_ucd (str ''x'')
     \<notin> fst ` set [(str ''Y'', credential (str ''c@d.org'') (str ''pw2''))] \<and>
   find_password sample_ucd (str ''x'')
       (Some (Document (JObj [(str ''Y'', credential (str ''c@d.org'') (str ''pw2''))])))
     = Inr (EntryNotFound (str ''X'')) \<and>
   store_ok (Some (Document (JObj [(str ''X'', credential (str ''a@b.com'') (str ''pw1''))]))) \<and>
   find_password sample_ucd (str ''x'')
       (Some (Document (JObj [(str ''X'', credential (str ''a@b.com'') (str ''pw1''))])))
     = Inr (Found (str ''X'') (JStr (str ''a@b.com'')) (JStr (str ''pw1'')))"
proof -
  have ok: "store_ok (Some (Document (JObj [(str ''X'', credential (str ''a@b.com'') (str ''pw1''))])))"
    by (simp add: is_credential_credential)
  have f: "find_password sample_ucd (str ''x'')
       (Some (Document (JObj [(str ''X'', credential (str ''a@b.com'') (str ''pw1''))])))
     = Inr (Found (str ''X'') (JStr (str ''a@b.com'')) (JStr (str ''pw1'')))"
    using find_present_key[where u = sample_ucd and website = "str ''x''"
        and d = "[(str ''X'', credential (str ''a@b.com'') (str ''pw1''))]"]
    by (simp add: title_x)
  have n: "str ''X'' \<noteq> str ''Y''" by (simp add: str_def cp_def)
  show ?thesis
    using find_password_outcomes[where u = sample_ucd and website = "str ''x''"
        and d = "[(str ''Y'', credential (str ''c@d.org'') (str ''pw2''))]"
        and fs = "Some (Document (JObj [(str ''X'', credential (str ''a@b.com'') (str ''pw1''))]))"]
      ok f n
    by (simp add: title_x)
qed

subsection \<open>C8: \<^verbatim>\<open>save\<close> over a missing or unreadable file\<close>

text \<open>
  Claim C8. For every call to \<^verbatim>\<open>save\<close> that passes validation, when the file does
  not exist, or exists and cannot be parsed, \<^verbatim>\<open>save\<close> takes the store to be empty,
  succeeds, and writes a file that holds exactly the one new entry. The docstring of
  \<^verbatim>\<open>save\<close> says the same of a file that \<^verbatim>\<open>does not exist or is unreadable\<close>. The code
  does so for the absent file and for the \<^verbatim>\<open>JSONDecodeError\<close>
  (\<open>save_self_healing\<close>). Its handler misses the other three exceptions of the read:
  on a file that is not UTF-8, or holds an integer too long to convert, or is nested
  too deep, \<^verbatim>\<open>save\<close> raises and writes nothing.
\<close>

theorem save_unreadable_raises:
  "save sample_ucd (str ''x'') (str ''a@b.com'') (str ''pw'') (Some NotUtf8)
     = (Inl UnicodeDecodeError, Some NotUtf8) \<and>
   save sample_ucd (str ''x'') (str ''a@b.com'') (str ''pw'') (Some HugeInteger)
     = (Inl ValueError, Some HugeInteger) \<and>
   save sample_ucd (str ''x'') (str ''a@b.com'') (str ''pw'') (Some TooDeep)
     = (Inl RecursionError, Some TooDeep)"
  by (simp add: save_def load_def str_def cp_def)

theorem save_unreadable_raises_witness:
  "fst (save sample_ucd (str ''x'') (str ''a@b.com'') (str ''pw'') (Some NotUtf8))
     = Inl UnicodeDecodeError \<and>
   snd (save sample_ucd (str ''x'') (str ''a@b.com'') (str ''pw'') (Some NotUtf8))
     = Some NotUtf8"
  using save_unreadable_raises by simp

subsection \<open>C9: \<^verbatim>\<open>find\<close> lets the error of the read through\<close>




subsection \<open>C10: whitespace is not empty\<close>

text \<open>
  Claim C10. The emptiness check of \<^verbatim>\<open>save\<close> looks at the length only. For every
  website and password that are not empty and consist of whitespace alone (a single
  space, say), with an email that contains \<^verbatim>\<open>@\<close> and \<^verbatim>\<open>.\<close>, the check passes and
  \<^verbatim>\<open>save\<close> succeeds: it files the credential under the whitespace-only key, which
  title-casing leaves as it is.
\<close>

theorem save_whitespace_only:
  assumes "website \<noteq> []" "password \<noteq> []"
    and "list_all is_whitespace website" "list_all is_whitespace password"
    and "cp CHR ''@'' \<in> set email" "cp CHR ''.'' \<in> set email"
    and "store_is_dict fs"
  shows "title u website = website \<and>
    save u website email password fs =
      (Inr Saved, Some (Document (JObj
         (AList.update website (credential email password) (entries fs)))))"
proof -
  have t: "title u website = website"
    unfolding title_def
    by (rule title_loop_uncased_ascii)
      (use assms(3) in \<open>auto simp: list_all_iff dest: whitespace_uncased\<close>)
  from assms(5) have "email \<noteq> []" by auto
  from save_valid[OF assms(1) this assms(2) assms(5) assms(6) assms(7)] t
  show ?thesis by simp
qed

theorem save_whitespace_only_witness:
  "list_all is_whitespace (str '' '') \<and> store_is_dict None \<and>
   save sample_ucd (str '' '') (str ''a@b.com'') (str '' '') None =
     (Inr Saved, Some (Document (JObj [(str '' '', credential (str ''a@b.com'') (str '' ''))])))"
  using save_whitespace_only[where u = sample_ucd and website = "str '' ''"
      and email = "str ''a@b.com''" and password = "str '' ''" and fs = None]
  by (simp add: str_def cp_def is_whitespace_def)

end
